theory Spec2Isabelle
  imports Main "HOL-Library.Word"
begin

section \<open>The 404 tracker: data model\<close>

text \<open>
  The tracker of \<^verbatim>\<open>404blocker.go\<close> keeps four Go maps keyed by the client address and
  three configuration values. A Go map is a finite partial function, so each map is a
  HOL map; reading a missing key yields Go's zero value (\<^verbatim>\<open>nil\<close> slice, \<^verbatim>\<open>false\<close>,
  \<^verbatim>\<open>0\<close>), which the readers below write out.

  Instants (\<^verbatim>\<open>time.Time\<close>) are integers on one time line, in nanoseconds. Durations
  (\<^verbatim>\<open>time.Duration\<close>, an \<^verbatim>\<open>int64\<close> of nanoseconds) are integers as well. The code does
  three things with them:

  \<^item> it adds a duration to an instant (\<^verbatim>\<open>now.Add(d)\<close>), which does not wrap for a clock
    reading and an \<^verbatim>\<open>int64\<close> duration, and compares instants;
  \<^item> it negates the window (\<^verbatim>\<open>-t.window\<close>), which wraps in \<^verbatim>\<open>int64\<close>: the negation of
    the most negative duration is that duration again. \<open>neg_duration\<close> writes this out;
  \<^item> it adds one to a tally (\<^verbatim>\<open>t.bannedRequest[clientIP]++\<close>), a Go \<^verbatim>\<open>int\<close>, which wraps
    at the largest \<^verbatim>\<open>int\<close>. A Go \<^verbatim>\<open>int\<close> is 32 or 64 bits wide, depending on the build,
    so the tally is a machine word whose width is a type parameter: the tracker has
    the type of the tally as its parameter \<open>'n\<close>, and the methods that count take it to
    be a word \<open>'w word\<close>, read as a signed number by \<open>sint\<close>.

  \<^verbatim>\<open>threshold\<close> is a Go \<^verbatim>\<open>int\<close> that the code only compares with the length of a slice; it
  is an integer.

  Every method reads the clock itself with \<^verbatim>\<open>time.Now()\<close>; the model takes each clock
  reading as an argument. The mutex \<^verbatim>\<open>mu\<close> and the two background goroutines are not
  part of the sequential model.
\<close>

type_synonym instant = int
type_synonym duration = int

definition Add :: "instant \<Rightarrow> duration \<Rightarrow> instant" where
  [simp]: "Add t d = t + d"

definition After :: "instant \<Rightarrow> instant \<Rightarrow> bool" where
  [simp]: "After t u = (u < t)"

definition Before :: "instant \<Rightarrow> instant \<Rightarrow> bool" where
  [simp]: "Before t u = (t < u)"

text \<open>
  \<open>neg_duration d\<close> is Go's \<^verbatim>\<open>-d\<close> for a duration \<open>d\<close>, a value of \<^verbatim>\<open>int64\<close>: the only
  such value whose negation does not fit is \<open>- 2 ^ 63\<close>, and there the result wraps
  around to \<open>- 2 ^ 63\<close>.
\<close>

definition neg_duration :: "duration \<Rightarrow> duration" where
  "neg_duration d = (if d = - (2 ^ 63) then d else - d)"

record 'n IP404Tracker =
  counts :: "string \<rightharpoonup> instant list"
  bannedUntil :: "string \<rightharpoonup> instant"
  whitelist :: "string \<rightharpoonup> bool"
  bannedRequest :: "string \<rightharpoonup> 'n"
  threshold :: int
  window :: duration
  banDuration :: duration

text \<open>
  Every method has a pointer receiver. The model of a method returns the tracker as it
  is after the call, next to the method's own result when it has one.
\<close>

section \<open>Construction and whitelist\<close>

definition hardcodedWhitelist :: "string list" where
  "hardcodedWhitelist = [''1.1.1.1'']"

definition initializeWhitelist :: "'n IP404Tracker \<Rightarrow> 'n IP404Tracker" where
  "initializeWhitelist t =
     fold (\<lambda>ip t. t\<lparr>whitelist := (whitelist t)(ip \<mapsto> True)\<rparr>) hardcodedWhitelist t"

definition NewIP404Tracker :: "int \<Rightarrow> duration \<Rightarrow> duration \<Rightarrow> 'n IP404Tracker" where
  "NewIP404Tracker threshold' window' banDuration' =
     initializeWhitelist
       \<lparr>counts = Map.empty, bannedUntil = Map.empty, whitelist = Map.empty,
        bannedRequest = Map.empty, threshold = threshold', window = window',
        banDuration = banDuration'\<rparr>"

definition AddToWhitelist :: "'n IP404Tracker \<Rightarrow> string \<Rightarrow> 'n IP404Tracker" where
  "AddToWhitelist t ip = t\<lparr>whitelist := (whitelist t)(ip \<mapsto> True)\<rparr>"

definition RemoveFromWhitelist :: "'n IP404Tracker \<Rightarrow> string \<Rightarrow> 'n IP404Tracker" where
  "RemoveFromWhitelist t ip = t\<lparr>whitelist := (whitelist t)(ip := None)\<rparr>"

definition IsWhitelisted :: "'n IP404Tracker \<Rightarrow> string \<Rightarrow> bool \<times> 'n IP404Tracker" where
  "IsWhitelisted t ip = ((case whitelist t ip of None \<Rightarrow> False | Some b \<Rightarrow> b), t)"

section \<open>Housekeeping\<close>

text \<open>
  \<^verbatim>\<open>cleanup\<close> ranges over both maps. Go visits the keys of a map in an unspecified
  order, so the order of each loop is an argument: \<open>ks\<close> lists the keys in the order
  the loop visits them. Each loop body reads and writes only the entry of the key it is
  visiting.
\<close>

definition cleanup_counts_body ::
    "instant \<Rightarrow> string \<Rightarrow> (string \<rightharpoonup> instant list) \<Rightarrow> (string \<rightharpoonup> instant list)" where
  "cleanup_counts_body windowCutoff ip cs =
     (case cs ip of
        None \<Rightarrow> cs
      | Some timestamps \<Rightarrow>
          (let validTimestamps = filter (\<lambda>ts. After ts windowCutoff) timestamps
           in if length validTimestamps = 0 then cs(ip := None)
              else cs(ip \<mapsto> validTimestamps)))"

definition cleanup_bans_body ::
    "instant \<Rightarrow> string \<Rightarrow> (string \<rightharpoonup> instant) \<Rightarrow> (string \<rightharpoonup> instant)" where
  "cleanup_bans_body now ip bs =
     (case bs ip of
        None \<Rightarrow> bs
      | Some bannedUntil' \<Rightarrow> if Before bannedUntil' now then bs(ip := None) else bs)"

definition cleanup ::
    "'n IP404Tracker \<Rightarrow> instant \<Rightarrow> string list \<Rightarrow> string list \<Rightarrow> 'n IP404Tracker" where
  "cleanup t now ks_counts ks_bans =
     (let windowCutoff = Add now (neg_duration (window t));
          t = t\<lparr>counts := fold (cleanup_counts_body windowCutoff) ks_counts (counts t)\<rparr>;
          t = t\<lparr>bannedUntil := fold (cleanup_bans_body now) ks_bans (bannedUntil t)\<rparr>
      in t)"

section \<open>Recording an offense and checking a ban\<close>

definition Record404 :: "'n IP404Tracker \<Rightarrow> string \<Rightarrow> instant \<Rightarrow> bool \<times> 'n IP404Tracker" where
  "Record404 t ip now =
     (let (wl, t) = IsWhitelisted t ip in
      if wl then (False, t)
      else
        let windowStart = Add now (neg_duration (window t)) in
        if (case bannedUntil t ip of None \<Rightarrow> False | Some banTime \<Rightarrow> After banTime now)
        then (True, t)
        else
          let timestamps = (case counts t ip of None \<Rightarrow> [] | Some ts \<Rightarrow> ts);
              recentTimestamps = filter (\<lambda>ts. After ts windowStart) timestamps;
              recentTimestamps = recentTimestamps @ [now];
              t = t\<lparr>counts := (counts t)(ip \<mapsto> recentTimestamps)\<rparr>
          in if int (length recentTimestamps) > threshold t
             then (True, t\<lparr>bannedUntil := (bannedUntil t)(ip \<mapsto> Add now (banDuration t))\<rparr>)
             else (False, t))"

definition IsBanned :: "'n IP404Tracker \<Rightarrow> string \<Rightarrow> instant \<Rightarrow> bool \<times> 'n IP404Tracker" where
  "IsBanned t ip now =
     (let (wl, t) = IsWhitelisted t ip in
      if wl then (False, t)
      else ((case bannedUntil t ip of None \<Rightarrow> False | Some banTime \<Rightarrow> After banTime now), t))"

definition UnbanIP :: "'n IP404Tracker \<Rightarrow> string \<Rightarrow> 'n IP404Tracker" where
  "UnbanIP t ip = t\<lparr>bannedUntil := (bannedUntil t)(ip := None)\<rparr>"

text \<open>
  \<^verbatim>\<open>GetBannedIPs\<close> ranges over \<^verbatim>\<open>bannedUntil\<close> and fills a fresh map; \<open>ks\<close> is again
  the order in which the loop visits the keys.
\<close>

definition GetBannedIPs ::
    "'n IP404Tracker \<Rightarrow> instant \<Rightarrow> string list \<Rightarrow> (string \<rightharpoonup> instant) \<times> 'n IP404Tracker" where
  "GetBannedIPs t now ks =
     (fold (\<lambda>ip result.
              case bannedUntil t ip of
                None \<Rightarrow> result
              | Some banTime \<Rightarrow> if After banTime now then result(ip \<mapsto> banTime) else result)
           ks Map.empty, t)"

definition BannedRequestCounter ::
    "('w::len) word IP404Tracker \<Rightarrow> string \<Rightarrow> 'w word IP404Tracker" where
  "BannedRequestCounter t clientIP =
     t\<lparr>bannedRequest :=
         (bannedRequest t)(clientIP \<mapsto>
            (case bannedRequest t clientIP of None \<Rightarrow> 0 | Some c \<Rightarrow> c) + 1)\<rparr>"

section \<open>Rolling bans and the middleware\<close>

text \<open>
  The repository holds the tracker in two variants. \<^verbatim>\<open>ExtendBan\<close> and the middleware
  below are those of the variant that has the rolling ban; the middleware of the other
  variant answers a banned client with the same 404 and abort, without the calls of
  \<^verbatim>\<open>ExtendBan\<close> and \<^verbatim>\<open>BannedRequestCounter\<close>. The methods that both variants
  have are the same in both; \<^verbatim>\<open>AddToWhitelist\<close>, \<^verbatim>\<open>RemoveFromWhitelist\<close> and
  \<^verbatim>\<open>UnbanIP\<close> are in the other variant only.
\<close>

definition ExtendBan :: "'n IP404Tracker \<Rightarrow> string \<Rightarrow> instant \<Rightarrow> 'n IP404Tracker" where
  "ExtendBan t ip now =
     (let (wl, t) = IsWhitelisted t ip in
      if wl then t
      else
        let newBanTime = Add now (banDuration t)
        in t\<lparr>bannedUntil := (bannedUntil t)(ip \<mapsto> newBanTime)\<rparr>)"

text \<open>
  The middleware answers one request. \<open>now1\<close> and \<open>now2\<close> are the first and the second
  clock reading taken while it runs: \<^verbatim>\<open>IsBanned\<close> takes the first, and \<^verbatim>\<open>ExtendBan\<close>
  or \<^verbatim>\<open>Record404\<close> the second. \<open>next_status\<close> is the status that the rest of the handler
  chain (\<^verbatim>\<open>c.Next()\<close>) leaves in the response writer. The result records the status of
  the response and whether the chain was aborted.
\<close>

record response =
  status :: int
  aborted :: bool

definition Middleware ::
    "('w::len) word IP404Tracker \<Rightarrow> string \<Rightarrow> instant \<Rightarrow> instant \<Rightarrow> int \<Rightarrow>
     response \<times> 'w word IP404Tracker" where
  "Middleware t clientIP now1 now2 next_status =
     (let (banned, t) = IsBanned t clientIP now1 in
      if banned then
        let t = ExtendBan t clientIP now2;
            t = BannedRequestCounter t clientIP
        in (\<lparr>status = 404, aborted = True\<rparr>, t)
      else if next_status = 404 then
        let (newlyBanned, t) = Record404 t clientIP now2
        in (\<lparr>status = next_status, aborted = False\<rparr>, t)
      else (\<lparr>status = next_status, aborted = False\<rparr>, t))"

section \<open>Sequences of calls and example trackers\<close>

text \<open>
  \<open>Record404_seq\<close> reports one offense after the other for the same address, at the
  given clock readings, and collects the results.
\<close>

fun Record404_seq ::
    "'n IP404Tracker \<Rightarrow> string \<Rightarrow> instant list \<Rightarrow> bool list \<times> 'n IP404Tracker" where
  "Record404_seq t ip [] = ([], t)"
| "Record404_seq t ip (now # nows) =
     (let (newlyBanned, t) = Record404 t ip now;
          (rest, t) = Record404_seq t ip nows
      in (newlyBanned # rest, t))"

text \<open>
  \<open>IsBanned_seq\<close> makes one ban check after the other, each for its own address and
  clock reading, without any other call in between.
\<close>

fun IsBanned_seq ::
    "'n IP404Tracker \<Rightarrow> (string \<times> instant) list \<Rightarrow> bool list \<times> 'n IP404Tracker" where
  "IsBanned_seq t [] = ([], t)"
| "IsBanned_seq t ((ip, now) # calls) =
     (let (banned, t) = IsBanned t ip now;
          (rest, t) = IsBanned_seq t calls
      in (banned # rest, t))"

text \<open>
  \<open>Middleware_seq\<close> answers one request after the other of the same client; each
  request comes with its two clock readings and the status of the rest of the chain.
  \<open>probing expiry d requests\<close> says that the client keeps probing: the ban check of
  each request happens before the expiry that was in force when it arrived, which is
  \<open>expiry\<close> for the first request and the second clock reading of the previous request
  plus \<open>d\<close> for the others.
\<close>

fun Middleware_seq ::
    "('w::len) word IP404Tracker \<Rightarrow> string \<Rightarrow> (instant \<times> instant \<times> int) list \<Rightarrow>
     response list \<times> 'w word IP404Tracker" where
  "Middleware_seq t clientIP [] = ([], t)"
| "Middleware_seq t clientIP ((now1, now2, next_status) # requests) =
     (let (r, t) = Middleware t clientIP now1 now2 next_status;
          (rest, t) = Middleware_seq t clientIP requests
      in (r # rest, t))"

fun probing :: "instant \<Rightarrow> duration \<Rightarrow> (instant \<times> instant \<times> int) list \<Rightarrow> bool" where
  "probing expiry d [] = True"
| "probing expiry d ((now1, now2, next_status) # requests) =
     (now1 < expiry \<and> probing (now2 + d) d requests)"

text \<open>
  Reading \<^verbatim>\<open>t.counts[ip]\<close> and \<^verbatim>\<open>t.bannedRequest[ip]\<close>: a missing key reads as the
  empty slice and as zero.
\<close>

definition counts_at :: "'n IP404Tracker \<Rightarrow> string \<Rightarrow> instant list" where
  "counts_at t ip = (case counts t ip of None \<Rightarrow> [] | Some ts \<Rightarrow> ts)"

definition tally :: "('w::len) word IP404Tracker \<Rightarrow> string \<Rightarrow> 'w word" where
  "tally t ip = (case bannedRequest t ip of None \<Rightarrow> 0 | Some c \<Rightarrow> c)"

text \<open>
  The tracker of \<^verbatim>\<open>main\<close> (threshold 3, window one minute, ban 24 hours) on a smaller
  scale, with window 60 and ban duration 86400; the same tracker with one address
  banned; and the same tracker with three offenses of one address on record. The width
  of \<^verbatim>\<open>int\<close> in the examples is 64 bits.
\<close>

definition example_tracker :: "64 word IP404Tracker" where
  "example_tracker = NewIP404Tracker 3 60 86400"

definition example_banned :: "64 word IP404Tracker" where
  "example_banned = example_tracker\<lparr>bannedUntil := [''10.0.0.7'' \<mapsto> 86403]\<rparr>"

definition example_tracked :: "64 word IP404Tracker" where
  "example_tracked = example_tracker\<lparr>counts := [''10.0.0.7'' \<mapsto> [0, 10, 20]]\<rparr>"

text \<open>
  A tracker with two addresses on record: timestamps that are out of the window at
  time 70, and ban records that expire at 69 and at 70.
\<close>

definition example_stale :: "64 word IP404Tracker" where
  "example_stale = example_tracker
     \<lparr>counts := [''10.0.0.7'' \<mapsto> [0, 10, 20], ''10.0.0.8'' \<mapsto> [5, 10]],
      bannedUntil := [''10.0.0.7'' \<mapsto> 69, ''10.0.0.8'' \<mapsto> 70]\<rparr>"

text \<open>
  A tracker whose window is the most negative duration, with two offenses on record and
  threshold 1; and a tracker whose tally for a banned address is the largest 64-bit
  \<^verbatim>\<open>int\<close>.
\<close>

definition example_wrapped :: "64 word IP404Tracker" where
  "example_wrapped =
     (NewIP404Tracker 1 (- (2 ^ 63)) 86400)\<lparr>counts := [''10.0.0.7'' \<mapsto> [0, 5]]\<rparr>"

definition example_full :: "64 word IP404Tracker" where
  "example_full = example_banned\<lparr>bannedRequest := [''10.0.0.7'' \<mapsto> 2 ^ 63 - 1]\<rparr>"

lemmas example_defs =
  example_full_def example_wrapped_def example_stale_def example_tracked_def
  example_banned_def example_tracker_def
  NewIP404Tracker_def initializeWhitelist_def hardcodedWhitelist_def

section \<open>Properties\<close>

subsection \<open>Basic facts\<close>

lemma neg_duration_eq: "d \<noteq> - (2 ^ 63) \<Longrightarrow> neg_duration d = - d"
  by (simp add: neg_duration_def)

lemma cutoff_eq: "d \<noteq> - (2 ^ 63) \<Longrightarrow> now + neg_duration d = now - d"
  by (simp add: neg_duration_eq)

lemma sint_add_int:
  fixes a :: "'w::len word"
  assumes "- (2 ^ (LENGTH('w) - 1)) \<le> sint a + k" and "sint a + k < 2 ^ (LENGTH('w) - 1)"
  shows "sint (a + word_of_int k) = sint a + k"
proof -
  have "a + word_of_int k = word_of_int (sint a + k)"
    by simp
  then have "sint (a + word_of_int k) = signed_take_bit (LENGTH('w) - 1) (sint a + k)"
    by (simp only: sint_sbintrunc')
  also have "\<dots> = sint a + k"
    using assms by (simp add: signed_take_bit_int_eq_self)
  finally show ?thesis .
qed

lemma sint_succ:
  fixes a :: "'w::len word"
  assumes "sint a < 2 ^ (LENGTH('w) - 1) - 1"
  shows "sint (a + 1) = sint a + 1"
proof -
  have "- (2 ^ (LENGTH('w) - 1)) \<le> sint a + 1"
    using sint_ge [of a] by simp
  moreover have "sint a + 1 < 2 ^ (LENGTH('w) - 1)" using assms by simp
  ultimately show ?thesis using sint_add_int [of a 1] by simp
qed

lemma sint_add_nat:
  fixes a :: "'w::len word"
  assumes "sint a + int n < 2 ^ (LENGTH('w) - 1)"
  shows "sint (a + of_nat n) = sint a + int n"
proof -
  have "- (2 ^ (LENGTH('w) - 1)) \<le> sint a + int n"
    using sint_ge [of a] by simp
  then show ?thesis using assms sint_add_int [of a "int n"] by simp
qed

lemma IsWhitelisted_snd [simp]: "snd (IsWhitelisted t ip) = t"
  by (simp add: IsWhitelisted_def)

lemma Record404_whitelisted:
  "fst (IsWhitelisted t ip) \<Longrightarrow> Record404 t ip now = (False, t)"
  by (simp add: Record404_def IsWhitelisted_def)

lemma Record404_seq_whitelisted:
  "fst (IsWhitelisted t ip) \<Longrightarrow>
   Record404_seq t ip nows = (replicate (length nows) False, t)"
  by (induction nows) (simp_all add: Record404_whitelisted)

subsection \<open>Whitelist precedence\<close>

text \<open>
  Claim C5. For a whitelisted address, \<^verbatim>\<open>IsBanned\<close> returns false and \<^verbatim>\<open>Record404\<close>
  returns false, and both leave the whole tracker as it was; this holds whatever the
  rest of the state is (the address may even have a ban record), and for any number of
  reported offenses, each of which returns false.
\<close>

theorem whitelist_precedence:
  assumes "fst (IsWhitelisted t ip)"
  shows "IsBanned t ip now = (False, t)
       \<and> Record404 t ip now = (False, t)
       \<and> Record404_seq t ip nows = (replicate (length nows) False, t)"
  using assms Record404_whitelisted [OF assms] Record404_seq_whitelisted [OF assms]
  by (simp add: IsBanned_def IsWhitelisted_def)

theorem whitelist_precedence_witness:
  "fst (IsWhitelisted example_tracker ''1.1.1.1'')
   \<and> IsBanned example_tracker ''1.1.1.1'' 5 = (False, example_tracker)
   \<and> Record404 example_tracker ''1.1.1.1'' 5 = (False, example_tracker)
   \<and> Record404_seq example_tracker ''1.1.1.1'' [0, 1, 2, 3, 4] =
       ([False, False, False, False, False], example_tracker)"
proof -
  have h: "fst (IsWhitelisted example_tracker ''1.1.1.1'')"
    by (simp add: example_defs IsWhitelisted_def)
  from whitelist_precedence [OF h, of 5 "[0, 1, 2, 3, 4]"] h show ?thesis by simp
qed

subsection \<open>Reporting an offense while banned\<close>

text \<open>
  Claim C7. When the address is not whitelisted and is banned at the time of the call
  (it has a ban record whose expiry is strictly after \<open>now\<close>, which is what
  \<^verbatim>\<open>IsBanned\<close> tests), \<^verbatim>\<open>Record404\<close> returns true; it returns before touching the
  offense window or the ban record.
\<close>

theorem Record404_already_banned:
  assumes "\<not> fst (IsWhitelisted t ip)" and "fst (IsBanned t ip now)"
  shows "Record404 t ip now = (True, t)"
  using assms
  by (auto simp: Record404_def IsBanned_def IsWhitelisted_def split: option.splits)

theorem Record404_already_banned_witness:
  "\<not> fst (IsWhitelisted example_banned ''10.0.0.7'')
   \<and> fst (IsBanned example_banned ''10.0.0.7'' 10)
   \<and> Record404 example_banned ''10.0.0.7'' 10 = (True, example_banned)"
proof -
  have h1: "\<not> fst (IsWhitelisted example_banned ''10.0.0.7'')"
    by (simp add: example_defs IsWhitelisted_def)
  have h2: "fst (IsBanned example_banned ''10.0.0.7'' 10)"
    by (simp add: example_defs IsWhitelisted_def IsBanned_def)
  from Record404_already_banned [OF h1 h2] h1 h2 show ?thesis by simp
qed

subsection \<open>The ban check has no effect\<close>

lemma IsBanned_snd: "snd (IsBanned t ip now) = t"
  by (simp add: IsBanned_def IsWhitelisted_def)

lemma IsBanned_seq_frame:
  "IsBanned_seq t calls = (map (\<lambda>(ip, now). fst (IsBanned t ip now)) calls, t)"
proof (induction calls)
  case Nil
  show ?case by simp
next
  case (Cons c calls)
  obtain ip now where c: "c = (ip, now)" by (cases c)
  obtain b where b: "IsBanned t ip now = (b, t)"
    using IsBanned_snd [of t ip now] by (cases "IsBanned t ip now") simp
  with Cons c show ?case by simp
qed

text \<open>
  Claim C9. \<^verbatim>\<open>IsBanned\<close> leaves the whole tracker (offense windows, ban records,
  whitelist, tally and configuration) as it was, for every address, whitelisted or not.
  Any sequence of ban checks therefore ends in the tracker it started from, and each
  check in it answers as it would have answered at the start.
\<close>

theorem IsBanned_no_effect:
  "snd (IsBanned t ip now) = t
   \<and> IsBanned_seq t calls = (map (\<lambda>(ip, now). fst (IsBanned t ip now)) calls, t)"
  by (simp add: IsBanned_snd IsBanned_seq_frame)

subsection \<open>Extending a ban\<close>

text \<open>
  Claim C10. For an address that is not whitelisted, \<^verbatim>\<open>ExtendBan\<close> writes the expiry
  \<open>now + banDuration\<close> whatever the ban record was before: absent, expired or active.
  Nothing else changes. With a positive ban duration the address is banned right after
  the call, so the call can create a ban for an address that was not banned.
\<close>

theorem ExtendBan_unconditional:
  assumes "\<not> fst (IsWhitelisted t ip)"
  shows "ExtendBan t ip now = t\<lparr>bannedUntil := (bannedUntil t)(ip \<mapsto> now + banDuration t)\<rparr>
       \<and> bannedUntil (ExtendBan t ip now) ip = Some (now + banDuration t)
       \<and> (0 < banDuration t \<longrightarrow> fst (IsBanned (ExtendBan t ip now) ip now))"
  using assms by (simp add: ExtendBan_def IsBanned_def IsWhitelisted_def)

theorem ExtendBan_unconditional_witness:
  "\<not> fst (IsWhitelisted example_tracker ''10.0.0.7'')
   \<and> bannedUntil example_tracker ''10.0.0.7'' = None
   \<and> \<not> fst (IsBanned example_tracker ''10.0.0.7'' 5)
   \<and> (0::int) < banDuration example_tracker
   \<and> bannedUntil (ExtendBan example_tracker ''10.0.0.7'' 5) ''10.0.0.7'' = Some 86405
   \<and> fst (IsBanned (ExtendBan example_tracker ''10.0.0.7'' 5) ''10.0.0.7'' 5)
   \<and> bannedUntil example_stale ''10.0.0.7'' = Some 69
   \<and> \<not> fst (IsBanned example_stale ''10.0.0.7'' 100)
   \<and> bannedUntil (ExtendBan example_stale ''10.0.0.7'' 100) ''10.0.0.7'' = Some 86500
   \<and> fst (IsBanned (ExtendBan example_stale ''10.0.0.7'' 100) ''10.0.0.7'' 100)"
proof -
  have h: "\<not> fst (IsWhitelisted example_tracker ''10.0.0.7'')"
    by (simp add: example_defs IsWhitelisted_def)
  have d: "(0::int) < banDuration example_tracker" "banDuration example_tracker = 86400"
    by (simp_all add: example_defs)
  have n: "bannedUntil example_tracker ''10.0.0.7'' = None"
    by (simp add: example_defs)
  have b: "\<not> fst (IsBanned example_tracker ''10.0.0.7'' 5)"
    by (simp add: example_defs IsBanned_def IsWhitelisted_def)
  have h': "\<not> fst (IsWhitelisted example_stale ''10.0.0.7'')"
    by (simp add: example_defs IsWhitelisted_def)
  have d': "(0::int) < banDuration example_stale" "banDuration example_stale = 86400"
    by (simp_all add: example_defs)
  have n': "bannedUntil example_stale ''10.0.0.7'' = Some 69"
    by (simp add: example_defs)
  have b': "\<not> fst (IsBanned example_stale ''10.0.0.7'' 100)"
    by (simp add: example_defs IsBanned_def IsWhitelisted_def)
  note r = ExtendBan_unconditional [OF h, of 5, THEN conjunct2]
  note r' = ExtendBan_unconditional [OF h', of 100, THEN conjunct2]
  from r d have 1: "bannedUntil (ExtendBan example_tracker ''10.0.0.7'' 5) ''10.0.0.7'' = Some 86405"
      "fst (IsBanned (ExtendBan example_tracker ''10.0.0.7'' 5) ''10.0.0.7'' 5)"
    by simp_all
  from r' d' have 2: "bannedUntil (ExtendBan example_stale ''10.0.0.7'' 100) ''10.0.0.7'' = Some 86500"
      "fst (IsBanned (ExtendBan example_stale ''10.0.0.7'' 100) ''10.0.0.7'' 100)"
    by simp_all
  from h d(1) n b n' b' 1 2 show ?thesis by blast
qed

subsection \<open>The offense window\<close>

text \<open>
  Claim C3. For an address that is neither whitelisted nor banned at \<open>now\<close>,
  \<^verbatim>\<open>Record404\<close> stores for it the old timestamps that are strictly after the start of
  the window, \<^verbatim>\<open>now.Add(-t.window)\<close>, in their old order, followed by \<open>now\<close>. For every
  window but the most negative duration the start of the window is \<open>now - window\<close>:
  a timestamp equal to \<open>now - window\<close> or older is dropped, and everything before the
  last entry is an old timestamp strictly after \<open>now - window\<close>. The last entry is the
  new event. With no timestamps on record the new count is one. Other addresses keep
  their entries.
\<close>

theorem Record404_window:
  assumes "\<not> fst (IsWhitelisted t ip)" and "\<not> fst (IsBanned t ip now)"
  shows "counts (snd (Record404 t ip now)) ip =
           Some (filter (\<lambda>ts. now + neg_duration (window t) < ts) (counts_at t ip) @ [now])
       \<and> (window t \<noteq> - (2 ^ 63) \<longrightarrow>
            counts (snd (Record404 t ip now)) ip =
              Some (filter (\<lambda>ts. now - window t < ts) (counts_at t ip) @ [now])
          \<and> (\<forall>ts \<in> set (butlast (counts_at (snd (Record404 t ip now)) ip)).
                ts \<in> set (counts_at t ip) \<and> now - window t < ts))
       \<and> last (counts_at (snd (Record404 t ip now)) ip) = now
       \<and> (counts_at t ip = [] \<longrightarrow> length (counts_at (snd (Record404 t ip now)) ip) = 1)
       \<and> (\<forall>ip'. ip' \<noteq> ip \<longrightarrow> counts (snd (Record404 t ip now)) ip' = counts t ip')"
proof -
  have exact: "counts (snd (Record404 t ip now)) ip =
      Some (filter (\<lambda>ts. now + neg_duration (window t) < ts) (counts_at t ip) @ [now])"
    using assms
    by (auto simp: Record404_def IsBanned_def IsWhitelisted_def counts_at_def Let_def
        split: option.splits)
  have at: "counts_at (snd (Record404 t ip now)) ip =
      filter (\<lambda>ts. now + neg_duration (window t) < ts) (counts_at t ip) @ [now]"
    using exact by (simp add: counts_at_def [of "snd (Record404 t ip now)"])
  have inrange: "counts (snd (Record404 t ip now)) ip =
        Some (filter (\<lambda>ts. now - window t < ts) (counts_at t ip) @ [now])
      \<and> (\<forall>ts \<in> set (butlast (counts_at (snd (Record404 t ip now)) ip)).
            ts \<in> set (counts_at t ip) \<and> now - window t < ts)"
    if w: "window t \<noteq> - (2 ^ 63)"
    using exact at by (simp add: cutoff_eq [OF w])
  have "last (counts_at (snd (Record404 t ip now)) ip) = now"
    by (simp add: at)
  moreover have "counts_at t ip = [] \<longrightarrow> length (counts_at (snd (Record404 t ip now)) ip) = 1"
    by (simp add: at)
  moreover have "\<forall>ip'. ip' \<noteq> ip \<longrightarrow> counts (snd (Record404 t ip now)) ip' = counts t ip'"
    using assms
    by (auto simp: Record404_def IsBanned_def IsWhitelisted_def Let_def split: option.splits)
  ultimately show ?thesis using exact inrange by blast
qed

theorem Record404_window_witness:
  "\<not> fst (IsWhitelisted example_tracked ''10.0.0.7'')
   \<and> \<not> fst (IsBanned example_tracked ''10.0.0.7'' 70)
   \<and> window example_tracked = 60
   \<and> counts_at example_tracked ''10.0.0.7'' = [0, 10, 20]
   \<and> counts (snd (Record404 example_tracked ''10.0.0.7'' 70)) ''10.0.0.7'' = Some [20, 70]
   \<and> counts_at example_tracker ''10.0.0.9'' = []
   \<and> length (counts_at (snd (Record404 example_tracker ''10.0.0.9'' 70)) ''10.0.0.9'') = 1
   \<and> counts (snd (Record404 example_tracker ''10.0.0.9'' 70)) ''10.0.0.7'' =
       counts example_tracker ''10.0.0.7''
   \<and> window example_wrapped = - (2 ^ 63)
   \<and> counts_at example_wrapped ''10.0.0.7'' = [0, 5]
   \<and> counts (snd (Record404 example_wrapped ''10.0.0.7'' 10)) ''10.0.0.7'' = Some [0, 5, 10]"
proof -
  have h1: "\<not> fst (IsWhitelisted example_tracked ''10.0.0.7'')"
    by (simp add: example_defs IsWhitelisted_def)
  have h2: "\<not> fst (IsBanned example_tracked ''10.0.0.7'' 70)"
    by (simp add: example_defs IsBanned_def IsWhitelisted_def)
  have c: "counts_at example_tracked ''10.0.0.7'' = [0, 10, 20]"
      "window example_tracked = 60"
    by (simp_all add: example_defs counts_at_def)
  have w: "window example_tracked \<noteq> - (2 ^ 63)"
    by (simp add: c)
  have g1: "\<not> fst (IsWhitelisted example_tracker ''10.0.0.9'')"
    by (simp add: example_defs IsWhitelisted_def)
  have g2: "\<not> fst (IsBanned example_tracker ''10.0.0.9'' 70)"
    by (simp add: example_defs IsBanned_def IsWhitelisted_def)
  have e: "counts_at example_tracker ''10.0.0.9'' = []"
    by (simp add: example_defs counts_at_def)
  have k1: "\<not> fst (IsWhitelisted example_wrapped ''10.0.0.7'')"
    by (simp add: example_defs IsWhitelisted_def)
  have k2: "\<not> fst (IsBanned example_wrapped ''10.0.0.7'' 10)"
    by (simp add: example_defs IsBanned_def IsWhitelisted_def)
  have m: "counts_at example_wrapped ''10.0.0.7'' = [0, 5]"
      "window example_wrapped = - (2 ^ 63)"
    by (simp_all add: example_defs counts_at_def)
  note t1 = Record404_window [OF h1 h2]
  note t2 = Record404_window [OF g1 g2]
  note t3 = Record404_window [OF k1 k2]
  have r1: "counts (snd (Record404 example_tracked ''10.0.0.7'' 70)) ''10.0.0.7'' = Some [20, 70]"
    using t1 [THEN conjunct2, THEN conjunct1, rule_format, OF w, THEN conjunct1] c by simp
  have r2: "length (counts_at (snd (Record404 example_tracker ''10.0.0.9'' 70)) ''10.0.0.9'') = 1"
    using t2 e by blast
  have r3: "counts (snd (Record404 example_tracker ''10.0.0.9'' 70)) ''10.0.0.7'' =
       counts example_tracker ''10.0.0.7''"
    using t2 by simp
  have r4: "counts (snd (Record404 example_wrapped ''10.0.0.7'' 10)) ''10.0.0.7'' = Some [0, 5, 10]"
    using t3 [THEN conjunct1] m by (simp add: neg_duration_def)
  from h1 h2 c e m r1 r2 r3 r4 show ?thesis by blast
qed

subsection \<open>Construction\<close>

text \<open>
  Claim C6 says that construction validates the three configuration values to be
  positive. \<^verbatim>\<open>NewIP404Tracker\<close> has no check and no way to fail: it returns a tracker
  for any three values, here for a negative threshold, a zero window and a negative
  ban duration.
\<close>

theorem NewIP404Tracker_unvalidated:
  "\<not> 0 < threshold (NewIP404Tracker (- 1) 0 (- 5))
   \<and> \<not> 0 < window (NewIP404Tracker (- 1) 0 (- 5))
   \<and> \<not> 0 < banDuration (NewIP404Tracker (- 1) 0 (- 5))"
  by (simp add: NewIP404Tracker_def initializeWhitelist_def hardcodedWhitelist_def)

text \<open>
  Claim C6, amended. \<^verbatim>\<open>NewIP404Tracker\<close> takes exactly three configuration values and
  stores each as it is given, for all values; the tracker starts with empty offense
  windows, ban records and tally, and with the hard-coded address on the whitelist.
\<close>

theorem NewIP404Tracker_stores:
  "NewIP404Tracker threshold' window' banDuration' =
     \<lparr>counts = Map.empty, bannedUntil = Map.empty, whitelist = [''1.1.1.1'' \<mapsto> True],
      bannedRequest = Map.empty, threshold = threshold', window = window',
      banDuration = banDuration'\<rparr>"
  by (simp add: NewIP404Tracker_def initializeWhitelist_def hardcodedWhitelist_def)

subsection \<open>What banned means\<close>

lemma GetBannedIPs_fold:
  "fold (\<lambda>ip result.
           case bannedUntil t ip of
             None \<Rightarrow> result
           | Some banTime \<Rightarrow> if After banTime now then result(ip \<mapsto> banTime) else result)
        ks acc ip' =
   (if ip' \<in> set ks
    then (case bannedUntil t ip' of
            None \<Rightarrow> acc ip'
          | Some banTime \<Rightarrow> if now < banTime then Some banTime else acc ip')
    else acc ip')"
  by (induction ks arbitrary: acc) (auto split: option.splits)

lemma GetBannedIPs_lookup:
  assumes "set ks = dom (bannedUntil t)"
  shows "fst (GetBannedIPs t now ks) ip' =
           (case bannedUntil t ip' of
              None \<Rightarrow> None
            | Some banTime \<Rightarrow> if now < banTime then Some banTime else None)"
  using assms by (auto simp: GetBannedIPs_def GetBannedIPs_fold split: option.splits)

text \<open>
  Claim C4. For an address that is not whitelisted, \<^verbatim>\<open>IsBanned\<close> returns true exactly
  when the address has a ban record whose expiry is strictly after \<open>now\<close>; an expiry
  equal to \<open>now\<close> is not a ban. \<^verbatim>\<open>GetBannedIPs\<close>, whose loop visits the keys of
  \<^verbatim>\<open>bannedUntil\<close> in any order \<open>ks\<close>, returns a map that holds an address with an
  expiry exactly when the ban record of the address is that expiry and it is strictly
  after \<open>now\<close>.
\<close>

theorem banned_iff_expiry_after_now:
  assumes "set ks = dom (bannedUntil t)"
  shows "(\<not> fst (IsWhitelisted t ip) \<longrightarrow>
            fst (IsBanned t ip now) = (\<exists>e. bannedUntil t ip = Some e \<and> now < e))
       \<and> (\<forall>ip' e. (fst (GetBannedIPs t now ks) ip' = Some e) =
                   (bannedUntil t ip' = Some e \<and> now < e))"
proof -
  have "fst (GetBannedIPs t now ks) ip' = Some e \<longleftrightarrow> bannedUntil t ip' = Some e \<and> now < e"
    for ip' e
    by (auto simp: GetBannedIPs_lookup [OF assms] split: option.splits)
  moreover have "\<not> fst (IsWhitelisted t ip) \<longrightarrow>
            fst (IsBanned t ip now) = (\<exists>e. bannedUntil t ip = Some e \<and> now < e)"
    by (auto simp: IsBanned_def IsWhitelisted_def split: option.splits)
  ultimately show ?thesis by blast
qed

theorem banned_iff_expiry_after_now_witness:
  "set [''10.0.0.7''] = dom (bannedUntil example_banned)
   \<and> \<not> fst (IsWhitelisted example_banned ''10.0.0.7'')
   \<and> fst (IsBanned example_banned ''10.0.0.7'' 86402)
   \<and> \<not> fst (IsBanned example_banned ''10.0.0.7'' 86403)
   \<and> fst (GetBannedIPs example_banned 86402 [''10.0.0.7'']) ''10.0.0.7'' = Some 86403
   \<and> fst (GetBannedIPs example_banned 86403 [''10.0.0.7'']) ''10.0.0.7'' = None"
proof -
  have d: "set [''10.0.0.7''] = dom (bannedUntil example_banned)"
    by (simp add: example_defs)
  have w: "\<not> fst (IsWhitelisted example_banned ''10.0.0.7'')"
    by (simp add: example_defs IsWhitelisted_def)
  have b: "bannedUntil example_banned ''10.0.0.7'' = Some 86403"
    by (simp add: example_defs)
  note r1 = banned_iff_expiry_after_now [OF d, of "''10.0.0.7''" 86402]
  note r2 = banned_iff_expiry_after_now [OF d, of "''10.0.0.7''" 86403]
  have i1: "fst (IsBanned example_banned ''10.0.0.7'' 86402)"
    using r1 w b by simp
  have i2: "\<not> fst (IsBanned example_banned ''10.0.0.7'' 86403)"
    using r2 w b by simp
  have g1: "fst (GetBannedIPs example_banned 86402 [''10.0.0.7'']) ''10.0.0.7'' = Some 86403"
    using r1 b by simp
  have g2: "fst (GetBannedIPs example_banned 86403 [''10.0.0.7'']) ''10.0.0.7'' = None"
  proof (cases "fst (GetBannedIPs example_banned 86403 [''10.0.0.7'']) ''10.0.0.7''")
    case None
    then show ?thesis .
  next
    case (Some e)
    with r2 have "bannedUntil example_banned ''10.0.0.7'' = Some e \<and> 86403 < e" by blast
    with b show ?thesis by simp
  qed
  from d w i1 i2 g1 g2 show ?thesis by blast
qed

subsection \<open>The threshold\<close>

lemma Record404_step:
  assumes "\<not> fst (IsWhitelisted t ip)" and "\<not> fst (IsBanned t ip now)"
  shows "Record404 t ip now =
          (let recent = filter (\<lambda>ts. now + neg_duration (window t) < ts) (counts_at t ip) @ [now];
               t' = t\<lparr>counts := (counts t)(ip \<mapsto> recent)\<rparr>
           in if threshold t < int (length recent)
              then (True, t'\<lparr>bannedUntil := (bannedUntil t)(ip \<mapsto> now + banDuration t)\<rparr>)
              else (False, t'))"
  using assms
  by (auto simp: Record404_def IsBanned_def IsWhitelisted_def counts_at_def Let_def
      split: option.splits)

lemma Record404_config [simp]:
  "threshold (snd (Record404 t ip now)) = threshold t"
  "window (snd (Record404 t ip now)) = window t"
  "banDuration (snd (Record404 t ip now)) = banDuration t"
  "whitelist (snd (Record404 t ip now)) = whitelist t"
  by (auto simp: Record404_def IsWhitelisted_def Let_def split: option.splits)

lemma IsWhitelisted_Record404 [simp]:
  "fst (IsWhitelisted (snd (Record404 t ip now)) ip') = fst (IsWhitelisted t ip')"
  by (simp add: IsWhitelisted_def)

text \<open>
  Once the entries on record, all inside the window, exceed the threshold, every further
  offense inside the window returns true, whether the ban it finds is still active or
  not.
\<close>

lemma Record404_seq_over:
  assumes "\<not> fst (IsWhitelisted t ip)"
    and "\<forall>b \<in> set nows. filter (\<lambda>ts. b + neg_duration (window t) < ts) (counts_at t ip) = counts_at t ip"
    and "\<forall>a \<in> set nows. \<forall>b \<in> set nows. b + neg_duration (window t) < a"
    and "threshold t < int (length (counts_at t ip))"
  shows "fst (Record404_seq t ip nows) = replicate (length nows) True"
  using assms
proof (induction nows arbitrary: t)
  case Nil
  show ?case by simp
next
  case (Cons now nows)
  let ?t' = "snd (Record404 t ip now)"
  have wl: "\<not> fst (IsWhitelisted ?t' ip)" using Cons.prems(1) by simp
  have res: "fst (Record404 t ip now)"
    and cnt: "counts_at ?t' ip = counts_at t ip \<or> counts_at ?t' ip = counts_at t ip @ [now]"
  proof -
    show "fst (Record404 t ip now)"
      using Cons.prems
      by (auto simp: Record404_def IsWhitelisted_def counts_at_def Let_def split: option.splits)
    show "counts_at ?t' ip = counts_at t ip \<or> counts_at ?t' ip = counts_at t ip @ [now]"
      using Cons.prems
      by (auto simp: Record404_def IsWhitelisted_def counts_at_def Let_def split: option.splits)
  qed
  have inw: "\<forall>b \<in> set nows. filter (\<lambda>ts. b + neg_duration (window ?t') < ts) (counts_at ?t' ip) = counts_at ?t' ip"
    using cnt Cons.prems(2,3) by auto
  have mut: "\<forall>a \<in> set nows. \<forall>b \<in> set nows. b + neg_duration (window ?t') < a"
    using Cons.prems(3) by simp
  have thr: "threshold ?t' < int (length (counts_at ?t' ip))"
    using cnt Cons.prems(4) by auto
  from Cons.IH [OF wl inw mut thr] res show ?case
    by (simp add: split_beta Let_def)
qed

lemma IsBanned_reads:
  "whitelist t' = whitelist t \<Longrightarrow> bannedUntil t' = bannedUntil t \<Longrightarrow>
   fst (IsBanned t' ip now) = fst (IsBanned t ip now)"
  by (simp add: IsBanned_def IsWhitelisted_def)

lemma map_all_True:
  "(\<And>x. x \<in> set xs \<Longrightarrow> f x) \<Longrightarrow> map f xs = replicate (length xs) True"
  by (induction xs) auto

lemma Record404_seq_count:
  assumes "\<not> fst (IsWhitelisted t ip)"
    and "\<forall>b \<in> set nows. \<not> fst (IsBanned t ip b)"
    and "\<forall>b \<in> set nows. filter (\<lambda>ts. b + neg_duration (window t) < ts) (counts_at t ip) = ys"
    and "\<forall>a \<in> set nows. \<forall>b \<in> set nows. b + neg_duration (window t) < a"
  shows "fst (Record404_seq t ip nows) =
           map (\<lambda>k. threshold t < int (length ys) + int k + 1) [0..<length nows]"
  using assms
proof (induction nows arbitrary: t ys)
  case Nil
  show ?case by simp
next
  case (Cons now nows)
  let ?t' = "snd (Record404 t ip now)"
  have nb: "\<not> fst (IsBanned t ip now)" using Cons.prems(2) by simp
  have ys: "filter (\<lambda>ts. now + neg_duration (window t) < ts) (counts_at t ip) = ys"
    using Cons.prems(3) by simp
  note step = Record404_step [OF Cons.prems(1) nb, unfolded ys]
  have wl: "\<not> fst (IsWhitelisted ?t' ip)" using Cons.prems(1) by simp
  have cnt: "counts_at ?t' ip = ys @ [now]"
    by (simp add: step Let_def counts_at_def)
  have mut: "\<forall>a \<in> set nows. \<forall>b \<in> set nows. b + neg_duration (window ?t') < a"
    using Cons.prems(4) by simp
  have keep: "filter (\<lambda>ts. b + neg_duration (window ?t') < ts) (counts_at ?t' ip) = ys @ [now]"
    if b: "b \<in> set nows" for b
  proof -
    have "filter (\<lambda>ts. b + neg_duration (window t) < ts) (counts_at t ip) = ys"
      using Cons.prems(3) b by simp
    moreover have "filter (\<lambda>ts. b + neg_duration (window t) < ts)
                     (filter (\<lambda>ts. b + neg_duration (window t) < ts) (counts_at t ip))
                   = filter (\<lambda>ts. b + neg_duration (window t) < ts) (counts_at t ip)"
      by simp
    ultimately have "filter (\<lambda>ts. b + neg_duration (window t) < ts) ys = ys"
      by simp
    moreover have "b + neg_duration (window t) < now" using Cons.prems(4) b by simp
    ultimately show ?thesis by (simp add: cnt)
  qed
  show ?case
  proof (cases "threshold t < int (length ys) + 1")
    case True
    then have res: "fst (Record404 t ip now)" by (simp add: step Let_def)
    have "fst (Record404_seq ?t' ip nows) = replicate (length nows) True"
    proof (rule Record404_seq_over [OF wl _ mut])
      show "\<forall>b \<in> set nows.
              filter (\<lambda>ts. b + neg_duration (window ?t') < ts) (counts_at ?t' ip) = counts_at ?t' ip"
        using keep cnt by simp
      show "threshold ?t' < int (length (counts_at ?t' ip))"
        using True by (simp add: cnt)
    qed
    then have A: "fst (Record404_seq ?t' ip nows) = replicate (length nows) True" .
    have B: "map (\<lambda>k. threshold t < int (length ys) + int k + 1) [0..<length (now # nows)]
        = replicate (length (now # nows)) True"
      using True map_all_True [of "[0..<length (now # nows)]"
          "\<lambda>k. threshold t < int (length ys) + int k + 1"]
      by (simp del: upt_Suc)
    have C: "fst (Record404_seq t ip (now # nows))
        = fst (Record404 t ip now) # fst (Record404_seq ?t' ip nows)"
      by (simp add: split_beta)
    show ?thesis
      unfolding C B A using res by simp
  next
    case False
    then have res: "\<not> fst (Record404 t ip now)" by (simp add: step Let_def)
    have ban: "bannedUntil ?t' = bannedUntil t"
      using False by (simp add: step Let_def)
    have nb': "\<forall>b \<in> set nows. \<not> fst (IsBanned ?t' ip b)"
      using Cons.prems(2) IsBanned_reads [OF Record404_config(4) ban] by simp
    have keep': "\<forall>b \<in> set nows.
        filter (\<lambda>ts. b + neg_duration (window ?t') < ts) (counts_at ?t' ip) = ys @ [now]"
      using keep by simp
    have eq: "(threshold ?t' < int (length (ys @ [now])) + int k + 1)
            = (threshold t < int (length ys) + int (Suc k) + 1)" for k
      by simp
    have A: "fst (Record404_seq ?t' ip nows) =
            map (\<lambda>k. threshold t < int (length ys) + int (Suc k) + 1) [0..<length nows]"
      using Cons.IH [OF wl nb' keep' mut] unfolding eq .
    have C: "fst (Record404_seq t ip (now # nows))
        = fst (Record404 t ip now) # fst (Record404_seq ?t' ip nows)"
      by (simp add: split_beta)
    have B: "map (\<lambda>k. threshold t < int (length ys) + int k + 1) [0..<length (now # nows)]
        = (threshold t < int (length ys) + 1)
          # map (\<lambda>k. threshold t < int (length ys) + int (Suc k) + 1) [0..<length nows]"
      by (simp only: length_Cons map_upt_Suc) simp
    show ?thesis
      unfolding C B A using res False by simp
  qed
qed

text \<open>
  Claim C1. For an address that is not whitelisted, with the start of the window at
  \<open>now\<close> being \<^verbatim>\<open>now.Add(-t.window)\<close>:

  \<^item> when it is not banned at \<open>now\<close>, the count after the call is the number of old
    timestamps inside the window plus one; \<^verbatim>\<open>Record404\<close> returns true exactly when
    that count is strictly greater than the threshold, and it writes the ban record
    \<open>now + banDuration\<close> in exactly that case and leaves the ban records alone
    otherwise;
  \<^item> hence, when offenses are reported at times that lie within one window of each
    other, for an address that is not banned at any of them and has no timestamp on
    record inside their windows, the offense number \<open>k + 1\<close> returns true exactly when
    \<open>k + 1\<close> is greater than the threshold: the first \<open>T\<close> offenses return false and
    the offense number \<open>T + 1\<close> is the first to return true;
  \<^item> the start of the window is \<open>now - window\<close> for every window but the most negative
    duration.
\<close>

theorem threshold_boundary:
  assumes "\<not> fst (IsWhitelisted t ip)"
  shows "(\<not> fst (IsBanned t ip now) \<longrightarrow>
            length (counts_at (snd (Record404 t ip now)) ip) =
              length (filter (\<lambda>ts. now + neg_duration (window t) < ts) (counts_at t ip)) + 1
          \<and> fst (Record404 t ip now) =
              (threshold t < int (length (counts_at (snd (Record404 t ip now)) ip)))
          \<and> bannedUntil (snd (Record404 t ip now)) =
              (if threshold t < int (length (counts_at (snd (Record404 t ip now)) ip))
               then (bannedUntil t)(ip \<mapsto> now + banDuration t)
               else bannedUntil t))
       \<and> ((\<forall>b \<in> set nows. \<not> fst (IsBanned t ip b))
          \<and> (\<forall>b \<in> set nows.
                filter (\<lambda>ts. b + neg_duration (window t) < ts) (counts_at t ip) = [])
          \<and> (\<forall>a \<in> set nows. \<forall>b \<in> set nows. b + neg_duration (window t) < a) \<longrightarrow>
            fst (Record404_seq t ip nows) =
              map (\<lambda>k. threshold t < int k + 1) [0..<length nows])
       \<and> (window t \<noteq> - (2 ^ 63) \<longrightarrow> now + neg_duration (window t) = now - window t)"
proof (intro conjI impI)
  assume nb: "\<not> fst (IsBanned t ip now)"
  note step = Record404_step [OF assms nb]
  show len: "length (counts_at (snd (Record404 t ip now)) ip) =
      length (filter (\<lambda>ts. now + neg_duration (window t) < ts) (counts_at t ip)) + 1"
    by (simp add: step Let_def counts_at_def)
  show "fst (Record404 t ip now) =
      (threshold t < int (length (counts_at (snd (Record404 t ip now)) ip)))"
    unfolding len by (simp add: step Let_def)
  show "bannedUntil (snd (Record404 t ip now)) =
      (if threshold t < int (length (counts_at (snd (Record404 t ip now)) ip))
       then (bannedUntil t)(ip \<mapsto> now + banDuration t)
       else bannedUntil t)"
    unfolding len by (simp add: step Let_def)
next
  assume h: "(\<forall>b \<in> set nows. \<not> fst (IsBanned t ip b))
          \<and> (\<forall>b \<in> set nows.
                filter (\<lambda>ts. b + neg_duration (window t) < ts) (counts_at t ip) = [])
          \<and> (\<forall>a \<in> set nows. \<forall>b \<in> set nows. b + neg_duration (window t) < a)"
  from Record404_seq_count [OF assms, of nows "[]"] h
  show "fst (Record404_seq t ip nows) =
      map (\<lambda>k. threshold t < int k + 1) [0..<length nows]"
    by simp
next
  assume "window t \<noteq> - (2 ^ 63)"
  then show "now + neg_duration (window t) = now - window t"
    by (rule cutoff_eq)
qed

theorem threshold_boundary_witness:
  "\<not> fst (IsWhitelisted example_tracker ''10.0.0.7'')
   \<and> \<not> fst (IsBanned example_tracker ''10.0.0.7'' 0)
   \<and> threshold example_tracker = 3
   \<and> \<not> fst (Record404 example_tracker ''10.0.0.7'' 0)
   \<and> bannedUntil (snd (Record404 example_tracker ''10.0.0.7'' 0)) = bannedUntil example_tracker
   \<and> counts_at example_tracker ''10.0.0.7'' = []
   \<and> window example_tracker = 60
   \<and> fst (Record404_seq example_tracker ''10.0.0.7'' [0, 1, 2, 3]) = [False, False, False, True]
   \<and> threshold example_wrapped = 1
   \<and> window example_wrapped = - (2 ^ 63)
   \<and> counts_at example_wrapped ''10.0.0.7'' = [0, 5]
   \<and> fst (Record404 example_wrapped ''10.0.0.7'' 10)
   \<and> bannedUntil (snd (Record404 example_wrapped ''10.0.0.7'' 10)) ''10.0.0.7'' = Some 86410"
proof -
  have w: "\<not> fst (IsWhitelisted example_tracker ''10.0.0.7'')"
    by (simp add: example_defs IsWhitelisted_def)
  have nb: "\<forall>b. \<not> fst (IsBanned example_tracker ''10.0.0.7'' b)"
    by (simp add: example_defs IsBanned_def IsWhitelisted_def)
  have c: "counts_at example_tracker ''10.0.0.7'' = []" "threshold example_tracker = 3"
      "window example_tracker = 60"
    by (simp_all add: example_defs counts_at_def)
  have n: "neg_duration (window example_tracker) = - 60"
    by (simp add: c neg_duration_def)
  have m: "\<forall>a \<in> set [0, 1, 2, 3::int]. \<forall>b \<in> set [0, 1, 2, 3].
      b + neg_duration (window example_tracker) < a"
    by (simp add: n)
  have u: "map (\<lambda>k. (3::int) < int k + 1) [0..<length [0, 1, 2, 3::int]]
      = [False, False, False, True]"
    by (simp add: upt_rec)
  note r = threshold_boundary [OF w, of 0 "[0, 1, 2, 3]"]
  have s1: "\<not> fst (Record404 example_tracker ''10.0.0.7'' 0)"
    and s2: "bannedUntil (snd (Record404 example_tracker ''10.0.0.7'' 0)) = bannedUntil example_tracker"
    using r nb c by simp_all
  have s3: "fst (Record404_seq example_tracker ''10.0.0.7'' [0, 1, 2, 3]) = [False, False, False, True]"
    using r nb c m u by simp
  have w': "\<not> fst (IsWhitelisted example_wrapped ''10.0.0.7'')"
    by (simp add: example_defs IsWhitelisted_def)
  have nb': "\<not> fst (IsBanned example_wrapped ''10.0.0.7'' 10)"
    by (simp add: example_defs IsBanned_def IsWhitelisted_def)
  have c': "counts_at example_wrapped ''10.0.0.7'' = [0, 5]" "threshold example_wrapped = 1"
      "window example_wrapped = - (2 ^ 63)" "banDuration example_wrapped = 86400"
    by (simp_all add: example_defs counts_at_def)
  have n': "neg_duration (window example_wrapped) = - (2 ^ 63)"
    by (simp add: c' neg_duration_def)
  note r' = threshold_boundary [OF w', of 10 "[]", THEN conjunct1, rule_format, OF nb']
  have l': "length (counts_at (snd (Record404 example_wrapped ''10.0.0.7'' 10)) ''10.0.0.7'') = 3"
    using r' c' n' by simp
  have s4: "fst (Record404 example_wrapped ''10.0.0.7'' 10)"
    using r' [THEN conjunct2, THEN conjunct1] l' c' by simp
  have s5: "bannedUntil (snd (Record404 example_wrapped ''10.0.0.7'' 10)) ''10.0.0.7'' = Some 86410"
    using r' [THEN conjunct2, THEN conjunct2] l' c' by simp
  from w nb c s1 s2 s3 c' s4 s5 show ?thesis by simp
qed

subsection \<open>The housekeeping sweep\<close>

lemma fold_cleanup_counts_body:
  "fold (cleanup_counts_body c) ks cs ip =
     (if ip \<in> set ks
      then (case cs ip of
              None \<Rightarrow> None
            | Some ts \<Rightarrow> if filter (\<lambda>x. c < x) ts = [] then None
                          else Some (filter (\<lambda>x. c < x) ts))
      else cs ip)"
proof (induction ks arbitrary: cs)
  case Nil
  show ?case by simp
next
  case (Cons k ks)
  have body: "cleanup_counts_body c k cs ip' =
      (if ip' = k
       then (case cs ip' of
               None \<Rightarrow> None
             | Some ts \<Rightarrow> if filter (\<lambda>x. c < x) ts = [] then None
                           else Some (filter (\<lambda>x. c < x) ts))
       else cs ip')" for ip'
    by (simp add: cleanup_counts_body_def Let_def split: option.splits)
  show ?case
    by (simp add: Cons.IH body split: option.splits)
qed

lemma fold_cleanup_bans_body:
  "fold (cleanup_bans_body now) ks bs ip =
     (if ip \<in> set ks
      then (case bs ip of None \<Rightarrow> None | Some e \<Rightarrow> if e < now then None else Some e)
      else bs ip)"
proof (induction ks arbitrary: bs)
  case Nil
  show ?case by simp
next
  case (Cons k ks)
  have body: "cleanup_bans_body now k bs ip' =
      (if ip' = k
       then (case bs ip' of None \<Rightarrow> None | Some e \<Rightarrow> if e < now then None else Some e)
       else bs ip')" for ip'
    by (simp add: cleanup_bans_body_def split: option.splits)
  show ?case
    by (simp add: Cons.IH body split: option.splits)
qed

lemma cleanup_counts:
  assumes "set ks_counts = dom (counts t)"
  shows "counts (cleanup t now ks_counts ks_bans) ip =
     (if filter (\<lambda>x. now + neg_duration (window t) < x) (counts_at t ip) = [] then None
      else Some (filter (\<lambda>x. now + neg_duration (window t) < x) (counts_at t ip)))"
  using assms
  by (auto simp: cleanup_def Let_def fold_cleanup_counts_body counts_at_def
      split: option.splits)

lemma cleanup_bans:
  assumes "set ks_bans = dom (bannedUntil t)"
  shows "bannedUntil (cleanup t now ks_counts ks_bans) ip =
     (case bannedUntil t ip of None \<Rightarrow> None | Some e \<Rightarrow> if e < now then None else Some e)"
  using assms
  by (auto simp: cleanup_def Let_def fold_cleanup_bans_body split: option.splits)

text \<open>
  Claim C8. \<^verbatim>\<open>cleanup\<close> ranges over the keys of \<^verbatim>\<open>counts\<close> and of \<^verbatim>\<open>bannedUntil\<close>,
  in any order. After it has run at \<open>now\<close>, for every address: each timestamp still on
  record is strictly after the cutoff \<^verbatim>\<open>now.Add(-t.window)\<close>, and the record is the old
  one without the other timestamps; for every window but the most negative duration
  the cutoff is \<open>now - window\<close>, so that no timestamp on record is \<open>window\<close> old or
  older. An address left without timestamps has no entry in \<^verbatim>\<open>counts\<close> (no entry is an
  empty list). A ban record whose expiry is before \<open>now\<close> is gone, a ban record still
  there is an old one whose expiry is \<open>now\<close> or later, and every such old record is
  still there.
\<close>

theorem cleanup_sweep:
  assumes "set ks_counts = dom (counts t)" and "set ks_bans = dom (bannedUntil t)"
  shows "(\<forall>ts \<in> set (counts_at (cleanup t now ks_counts ks_bans) ip).
            now + neg_duration (window t) < ts)
       \<and> counts_at (cleanup t now ks_counts ks_bans) ip =
           filter (\<lambda>ts. now + neg_duration (window t) < ts) (counts_at t ip)
       \<and> (window t \<noteq> - (2 ^ 63) \<longrightarrow>
            (\<forall>ts \<in> set (counts_at (cleanup t now ks_counts ks_bans) ip). now - window t < ts)
          \<and> counts_at (cleanup t now ks_counts ks_bans) ip =
              filter (\<lambda>ts. now - window t < ts) (counts_at t ip))
       \<and> (counts_at (cleanup t now ks_counts ks_bans) ip = [] \<longrightarrow>
            counts (cleanup t now ks_counts ks_bans) ip = None)
       \<and> counts (cleanup t now ks_counts ks_bans) ip \<noteq> Some []
       \<and> (\<forall>e. bannedUntil t ip = Some e \<and> e < now \<longrightarrow>
            bannedUntil (cleanup t now ks_counts ks_bans) ip = None)
       \<and> (\<forall>e. bannedUntil (cleanup t now ks_counts ks_bans) ip = Some e \<longrightarrow>
            bannedUntil t ip = Some e \<and> now \<le> e)
       \<and> (\<forall>e. bannedUntil t ip = Some e \<and> now \<le> e \<longrightarrow>
            bannedUntil (cleanup t now ks_counts ks_bans) ip = Some e)"
proof -
  note c = cleanup_counts [OF assms(1), of now ks_bans ip]
  note b = cleanup_bans [OF assms(2), of now ks_counts ip]
  have ca: "counts_at (cleanup t now ks_counts ks_bans) ip =
           filter (\<lambda>ts. now + neg_duration (window t) < ts) (counts_at t ip)"
    using c by (simp add: counts_at_def [of "cleanup t now ks_counts ks_bans"])
  have 1: "\<forall>ts \<in> set (counts_at (cleanup t now ks_counts ks_bans) ip).
      now + neg_duration (window t) < ts"
    unfolding ca by simp
  have 2: "(\<forall>ts \<in> set (counts_at (cleanup t now ks_counts ks_bans) ip). now - window t < ts)
          \<and> counts_at (cleanup t now ks_counts ks_bans) ip =
              filter (\<lambda>ts. now - window t < ts) (counts_at t ip)"
    if w: "window t \<noteq> - (2 ^ 63)"
    using 1 ca by (simp add: cutoff_eq [OF w])
  have 3: "counts_at (cleanup t now ks_counts ks_bans) ip = [] \<longrightarrow>
            counts (cleanup t now ks_counts ks_bans) ip = None"
    using c unfolding ca by simp
  have 4: "counts (cleanup t now ks_counts ks_bans) ip \<noteq> Some []"
    using c by (simp split: if_splits)
  have 5: "\<forall>e. bannedUntil t ip = Some e \<and> e < now \<longrightarrow>
            bannedUntil (cleanup t now ks_counts ks_bans) ip = None"
    using b by simp
  have 6: "\<forall>e. bannedUntil (cleanup t now ks_counts ks_bans) ip = Some e \<longrightarrow>
            bannedUntil t ip = Some e \<and> now \<le> e"
    using b by (auto split: option.splits if_splits)
  have 7: "\<forall>e. bannedUntil t ip = Some e \<and> now \<le> e \<longrightarrow>
            bannedUntil (cleanup t now ks_counts ks_bans) ip = Some e"
    using b by simp
  from 1 ca 2 3 4 5 6 7 show ?thesis by blast
qed

theorem cleanup_sweep_witness:
  "set [''10.0.0.8'', ''10.0.0.7''] = dom (counts example_stale)
   \<and> set [''10.0.0.7'', ''10.0.0.8''] = dom (bannedUntil example_stale)
   \<and> window example_stale = 60
   \<and> counts_at example_stale ''10.0.0.7'' = [0, 10, 20]
   \<and> counts_at (cleanup example_stale 70 [''10.0.0.8'', ''10.0.0.7'']
                  [''10.0.0.7'', ''10.0.0.8'']) ''10.0.0.7'' = [20]
   \<and> counts_at example_stale ''10.0.0.8'' = [5, 10]
   \<and> counts (cleanup example_stale 70 [''10.0.0.8'', ''10.0.0.7'']
               [''10.0.0.7'', ''10.0.0.8'']) ''10.0.0.8'' = None
   \<and> bannedUntil example_stale ''10.0.0.7'' = Some 69
   \<and> bannedUntil (cleanup example_stale 70 [''10.0.0.8'', ''10.0.0.7'']
                    [''10.0.0.7'', ''10.0.0.8'']) ''10.0.0.7'' = None
   \<and> bannedUntil example_stale ''10.0.0.8'' = Some 70
   \<and> bannedUntil (cleanup example_stale 70 [''10.0.0.8'', ''10.0.0.7'']
                    [''10.0.0.7'', ''10.0.0.8'']) ''10.0.0.8'' = Some 70
   \<and> set [''10.0.0.7''] = dom (counts example_wrapped)
   \<and> set [] = dom (bannedUntil example_wrapped)
   \<and> window example_wrapped = - (2 ^ 63)
   \<and> counts_at example_wrapped ''10.0.0.7'' = [0, 5]
   \<and> counts_at (cleanup example_wrapped 10 [''10.0.0.7''] []) ''10.0.0.7'' = [0, 5]"
proof -
  have d1: "set [''10.0.0.8'', ''10.0.0.7''] = dom (counts example_stale)"
    by (auto simp: example_stale_def)
  have d2: "set [''10.0.0.7'', ''10.0.0.8''] = dom (bannedUntil example_stale)"
    by (auto simp: example_stale_def)
  have c: "counts_at example_stale ''10.0.0.7'' = [0, 10, 20]"
      "counts_at example_stale ''10.0.0.8'' = [5, 10]"
      "window example_stale = 60"
      "bannedUntil example_stale ''10.0.0.7'' = Some 69"
      "bannedUntil example_stale ''10.0.0.8'' = Some 70"
    by (simp_all add: example_defs counts_at_def)
  have w: "window example_stale \<noteq> - (2 ^ 63)"
    by (simp add: c)
  note r7 = cleanup_sweep [OF d1 d2, of 70 "''10.0.0.7''"]
  note r8 = cleanup_sweep [OF d1 d2, of 70 "''10.0.0.8''"]
  have a: "counts_at (cleanup example_stale 70 [''10.0.0.8'', ''10.0.0.7'']
                  [''10.0.0.7'', ''10.0.0.8'']) ''10.0.0.7'' = [20]"
    using r7 [THEN conjunct2, THEN conjunct2, THEN conjunct1, rule_format, OF w, THEN conjunct2]
    by (simp add: c)
  have f: "counts_at (cleanup example_stale 70 [''10.0.0.8'', ''10.0.0.7'']
                  [''10.0.0.7'', ''10.0.0.8'']) ''10.0.0.8'' = []"
    using r8 [THEN conjunct2, THEN conjunct2, THEN conjunct1, rule_format, OF w, THEN conjunct2]
    by (simp add: c)
  have b: "counts (cleanup example_stale 70 [''10.0.0.8'', ''10.0.0.7'']
               [''10.0.0.7'', ''10.0.0.8'']) ''10.0.0.8'' = None"
    using r8 f by blast
  have e: "bannedUntil (cleanup example_stale 70 [''10.0.0.8'', ''10.0.0.7'']
                    [''10.0.0.7'', ''10.0.0.8'']) ''10.0.0.7'' = None"
    using r7 c(4) by simp
  have k: "bannedUntil (cleanup example_stale 70 [''10.0.0.8'', ''10.0.0.7'']
                    [''10.0.0.7'', ''10.0.0.8'']) ''10.0.0.8'' = Some 70"
    using r8 c(5) by simp
  have d3: "set [''10.0.0.7''] = dom (counts example_wrapped)"
    by (auto simp: example_defs)
  have d4: "set [] = dom (bannedUntil example_wrapped)"
    by (auto simp: example_defs)
  have m: "counts_at example_wrapped ''10.0.0.7'' = [0, 5]"
      "window example_wrapped = - (2 ^ 63)"
    by (simp_all add: example_defs counts_at_def)
  have x: "counts_at (cleanup example_wrapped 10 [''10.0.0.7''] []) ''10.0.0.7'' = [0, 5]"
    using cleanup_sweep [OF d3 d4, of 10 "''10.0.0.7''", THEN conjunct2, THEN conjunct1]
    by (simp add: m neg_duration_def)
  from d1 d2 c a b e k d3 d4 m x show ?thesis by blast
qed

subsection \<open>The gate extends a ban\<close>

lemma Middleware_banned:
  assumes "\<not> fst (IsWhitelisted t ip)" and "fst (IsBanned t ip now1)"
  shows "Middleware t ip now1 now2 st =
           (\<lparr>status = 404, aborted = True\<rparr>,
            t\<lparr>bannedUntil := (bannedUntil t)(ip \<mapsto> now2 + banDuration t),
              bannedRequest := (bannedRequest t)(ip \<mapsto> tally t ip + 1)\<rparr>)"
  using assms
  by (auto simp: Middleware_def IsBanned_def IsWhitelisted_def ExtendBan_def
      BannedRequestCounter_def tally_def Let_def split: option.splits)

lemma Middleware_seq_probing:
  assumes "\<not> fst (IsWhitelisted t ip)"
    and "bannedUntil t ip = Some e"
    and "probing e (banDuration t) reqs"
  shows "fst (Middleware_seq t ip reqs) = replicate (length reqs) \<lparr>status = 404, aborted = True\<rparr>
       \<and> tally (snd (Middleware_seq t ip reqs)) ip = tally t ip + of_nat (length reqs)
       \<and> bannedUntil (snd (Middleware_seq t ip reqs)) ip =
           Some (if reqs = [] then e else fst (snd (last reqs)) + banDuration t)"
  using assms
proof (induction reqs arbitrary: t e)
  case Nil
  then show ?case by simp
next
  case (Cons r reqs)
  obtain now1 now2 st where r: "r = (now1, now2, st)" by (cases r)
  let ?t' = "t\<lparr>bannedUntil := (bannedUntil t)(ip \<mapsto> now2 + banDuration t),
              bannedRequest := (bannedRequest t)(ip \<mapsto> tally t ip + 1)\<rparr>"
  have p: "now1 < e" "probing (now2 + banDuration t) (banDuration t) reqs"
    using Cons.prems(3) r by simp_all
  have b: "fst (IsBanned t ip now1)"
    using Cons.prems(1,2) p(1) by (simp add: IsBanned_def IsWhitelisted_def)
  note m = Middleware_banned [OF Cons.prems(1) b, of now2 st]
  have wl: "\<not> fst (IsWhitelisted ?t' ip)"
    using Cons.prems(1) by (simp add: IsWhitelisted_def)
  have e': "bannedUntil ?t' ip = Some (now2 + banDuration t)" by simp
  have p': "probing (now2 + banDuration t) (banDuration ?t') reqs" using p(2) by simp
  note ih = Cons.IH [OF wl e' p']
  have ty: "tally ?t' ip = tally t ip + 1" by (simp add: tally_def)
  have s: "Middleware_seq t ip (r # reqs) =
      (\<lparr>status = 404, aborted = True\<rparr> # fst (Middleware_seq ?t' ip reqs),
       snd (Middleware_seq ?t' ip reqs))"
    by (simp add: r m split_beta)
  show ?case
    unfolding s using ih ty r by (simp del: Middleware_seq.simps)
qed

text \<open>
  Claim C2. For an address that is not whitelisted:

  \<^item> when the ban check of the middleware finds it banned, the middleware answers 404
    and aborts the chain, the ban record becomes the clock reading of \<^verbatim>\<open>ExtendBan\<close>
    plus \<open>banDuration\<close> (what a fresh ban at that time writes), and the tally of the
    address is the old one plus one in the arithmetic of a Go \<^verbatim>\<open>int\<close>: one more as a
    number unless the old tally is the largest \<^verbatim>\<open>int\<close>, where it wraps. Nothing else
    changes;
  \<^item> so a client that keeps probing is never released: when each request arrives
    before the expiry in force, every request is answered 404 and aborted, the tally
    grows by the number of requests (as a number, as long as that stays below the
    limit), and the ban ends \<open>banDuration\<close> after the last request.
\<close>

theorem gate_extends_ban:
  fixes t :: "('w::len) word IP404Tracker"
  assumes "\<not> fst (IsWhitelisted t ip)"
  shows "(fst (IsBanned t ip now1) \<longrightarrow>
            Middleware t ip now1 now2 next_status =
              (\<lparr>status = 404, aborted = True\<rparr>,
               t\<lparr>bannedUntil := (bannedUntil t)(ip \<mapsto> now2 + banDuration t),
                 bannedRequest := (bannedRequest t)(ip \<mapsto> tally t ip + 1)\<rparr>)
          \<and> bannedUntil (snd (Middleware t ip now1 now2 next_status)) ip =
              Some (now2 + banDuration t)
          \<and> tally (snd (Middleware t ip now1 now2 next_status)) ip = tally t ip + 1
          \<and> (sint (tally t ip) < 2 ^ (LENGTH('w) - 1) - 1 \<longrightarrow>
               sint (tally (snd (Middleware t ip now1 now2 next_status)) ip) =
                 sint (tally t ip) + 1))
       \<and> (bannedUntil t ip = Some e \<and> probing e (banDuration t) reqs \<longrightarrow>
            fst (Middleware_seq t ip reqs) =
              replicate (length reqs) \<lparr>status = 404, aborted = True\<rparr>
          \<and> tally (snd (Middleware_seq t ip reqs)) ip = tally t ip + of_nat (length reqs)
          \<and> (sint (tally t ip) + int (length reqs) < 2 ^ (LENGTH('w) - 1) \<longrightarrow>
               sint (tally (snd (Middleware_seq t ip reqs)) ip) =
                 sint (tally t ip) + int (length reqs))
          \<and> bannedUntil (snd (Middleware_seq t ip reqs)) ip =
              Some (if reqs = [] then e else fst (snd (last reqs)) + banDuration t))"
proof (intro conjI impI)
  assume b: "fst (IsBanned t ip now1)"
  note m = Middleware_banned [OF assms b, of now2 next_status]
  show "Middleware t ip now1 now2 next_status =
      (\<lparr>status = 404, aborted = True\<rparr>,
       t\<lparr>bannedUntil := (bannedUntil t)(ip \<mapsto> now2 + banDuration t),
         bannedRequest := (bannedRequest t)(ip \<mapsto> tally t ip + 1)\<rparr>)"
    by (rule m)
  show "bannedUntil (snd (Middleware t ip now1 now2 next_status)) ip =
      Some (now2 + banDuration t)"
    by (simp add: m)
  show ty: "tally (snd (Middleware t ip now1 now2 next_status)) ip = tally t ip + 1"
    by (simp add: m tally_def)
  assume "sint (tally t ip) < 2 ^ (LENGTH('w) - 1) - 1"
  then show "sint (tally (snd (Middleware t ip now1 now2 next_status)) ip) =
      sint (tally t ip) + 1"
    unfolding ty by (rule sint_succ)
next
  assume h: "bannedUntil t ip = Some e \<and> probing e (banDuration t) reqs"
  then have h1: "bannedUntil t ip = Some e" and h2: "probing e (banDuration t) reqs"
    by simp_all
  note s = Middleware_seq_probing [OF assms h1 h2]
  show "fst (Middleware_seq t ip reqs) =
      replicate (length reqs) \<lparr>status = 404, aborted = True\<rparr>"
    using s by blast
  show ty: "tally (snd (Middleware_seq t ip reqs)) ip = tally t ip + of_nat (length reqs)"
    using s by blast
  show "bannedUntil (snd (Middleware_seq t ip reqs)) ip =
      Some (if reqs = [] then e else fst (snd (last reqs)) + banDuration t)"
    using s by blast
  assume "sint (tally t ip) + int (length reqs) < 2 ^ (LENGTH('w) - 1)"
  then show "sint (tally (snd (Middleware_seq t ip reqs)) ip) =
      sint (tally t ip) + int (length reqs)"
    unfolding ty by (rule sint_add_nat)
qed

theorem gate_extends_ban_witness:
  "\<not> fst (IsWhitelisted example_banned ''10.0.0.7'')
   \<and> fst (IsBanned example_banned ''10.0.0.7'' 3600)
   \<and> fst (Middleware example_banned ''10.0.0.7'' 3600 3600 200) =
       \<lparr>status = 404, aborted = True\<rparr>
   \<and> bannedUntil (snd (Middleware example_banned ''10.0.0.7'' 3600 3600 200)) ''10.0.0.7'' =
       Some 90000
   \<and> sint (tally example_banned ''10.0.0.7'') = 0
   \<and> sint (tally (snd (Middleware example_banned ''10.0.0.7'' 3600 3600 200)) ''10.0.0.7'') = 1
   \<and> bannedUntil example_banned ''10.0.0.7'' = Some 86403
   \<and> probing 86403 (banDuration example_banned)
        [(3600, 3601, 200), (90000, 90000, 200), (176399, 176400, 404)]
   \<and> fst (Middleware_seq example_banned ''10.0.0.7''
        [(3600, 3601, 200), (90000, 90000, 200), (176399, 176400, 404)]) =
       [\<lparr>status = 404, aborted = True\<rparr>, \<lparr>status = 404, aborted = True\<rparr>,
        \<lparr>status = 404, aborted = True\<rparr>]
   \<and> sint (tally (snd (Middleware_seq example_banned ''10.0.0.7''
        [(3600, 3601, 200), (90000, 90000, 200), (176399, 176400, 404)])) ''10.0.0.7'') = 3
   \<and> bannedUntil (snd (Middleware_seq example_banned ''10.0.0.7''
        [(3600, 3601, 200), (90000, 90000, 200), (176399, 176400, 404)])) ''10.0.0.7'' =
       Some 262800
   \<and> fst (IsBanned example_full ''10.0.0.7'' 3600)
   \<and> sint (tally example_full ''10.0.0.7'') = 2 ^ 63 - 1
   \<and> sint (tally (snd (Middleware example_full ''10.0.0.7'' 3600 3600 200)) ''10.0.0.7'') =
       - (2 ^ 63)"
proof -
  have w: "\<not> fst (IsWhitelisted example_banned ''10.0.0.7'')"
    by (simp add: example_defs IsWhitelisted_def)
  have b: "fst (IsBanned example_banned ''10.0.0.7'' 3600)"
    by (simp add: example_defs IsBanned_def IsWhitelisted_def)
  have c: "bannedUntil example_banned ''10.0.0.7'' = Some 86403"
      "banDuration example_banned = 86400"
      "tally example_banned ''10.0.0.7'' = 0"
    by (simp_all add: example_defs tally_def)
  have z: "sint (tally example_banned ''10.0.0.7'') = 0"
    by (simp add: c)
  have p: "probing 86403 (banDuration example_banned)
        [(3600, 3601, 200), (90000, 90000, 200), (176399, 176400, 404)]"
    by (simp add: c)
  note r = gate_extends_ban [OF w, of 3600 3600 200 86403
      "[(3600, 3601, 200), (90000, 90000, 200), (176399, 176400, 404)]"]
  note r1 = r [THEN conjunct1, rule_format, OF b]
  note r2 = r [THEN conjunct2, rule_format, OF conjI [OF c(1) p]]
  have a1: "fst (Middleware example_banned ''10.0.0.7'' 3600 3600 200) =
       \<lparr>status = 404, aborted = True\<rparr>"
    using r1 by simp
  have a2: "bannedUntil (snd (Middleware example_banned ''10.0.0.7'' 3600 3600 200)) ''10.0.0.7'' =
       Some 90000"
    using r1 [THEN conjunct2, THEN conjunct1] c by simp
  have a3: "sint (tally (snd (Middleware example_banned ''10.0.0.7'' 3600 3600 200)) ''10.0.0.7'') = 1"
    using r1 [THEN conjunct2, THEN conjunct2, THEN conjunct2] z by simp
  have s1: "fst (Middleware_seq example_banned ''10.0.0.7''
        [(3600, 3601, 200), (90000, 90000, 200), (176399, 176400, 404)]) =
       [\<lparr>status = 404, aborted = True\<rparr>, \<lparr>status = 404, aborted = True\<rparr>,
        \<lparr>status = 404, aborted = True\<rparr>]"
    using r2 [THEN conjunct1] by (simp add: numeral_3_eq_3)
  have s2: "sint (tally (snd (Middleware_seq example_banned ''10.0.0.7''
        [(3600, 3601, 200), (90000, 90000, 200), (176399, 176400, 404)])) ''10.0.0.7'') = 3"
    using r2 [THEN conjunct2, THEN conjunct2, THEN conjunct1] z by simp
  have s3: "bannedUntil (snd (Middleware_seq example_banned ''10.0.0.7''
        [(3600, 3601, 200), (90000, 90000, 200), (176399, 176400, 404)])) ''10.0.0.7'' =
       Some 262800"
    using r2 [THEN conjunct2, THEN conjunct2, THEN conjunct2] c by simp
  have w': "\<not> fst (IsWhitelisted example_full ''10.0.0.7'')"
    by (simp add: example_defs IsWhitelisted_def)
  have b': "fst (IsBanned example_full ''10.0.0.7'' 3600)"
    by (simp add: example_defs IsBanned_def IsWhitelisted_def)
  have c': "tally example_full ''10.0.0.7'' = 2 ^ 63 - 1"
    by (simp add: example_defs tally_def)
  have z': "sint (tally example_full ''10.0.0.7'') = 2 ^ 63 - 1"
    by (simp add: c')
  note q = gate_extends_ban [OF w', of 3600 3600 200 0 "[]", THEN conjunct1, rule_format, OF b']
  have f: "sint (tally (snd (Middleware example_full ''10.0.0.7'' 3600 3600 200)) ''10.0.0.7'') =
       - (2 ^ 63)"
    using q [THEN conjunct2, THEN conjunct2, THEN conjunct1] c' by simp
  from w b a1 a2 z a3 c(1) p s1 s2 s3 b' z' f show ?thesis by blast
qed

end
